theory Spec2Isabelle
  imports Complex_Main "HOL-Library.Multiset"
begin

chapter \<open>PlaybookWiz: the upload components, the Supabase schema and the intelligence engine\<close>

section \<open>\<^verbatim>\<open>formatFileSize\<close> of the \<^verbatim>\<open>FileUpload\<close> component\<close>

text \<open>
  \<^verbatim>\<open>
  const formatFileSize = (bytes: number) => {
    if (bytes === 0) return '0 Bytes';
    const k = 1024;
    const sizes = ['Bytes', 'KB', 'MB', 'GB'];
    const i = Math.floor(Math.log(bytes) / Math.log(k));
    return parseFloat((bytes / Math.pow(k, i)).toFixed(2)) + ' ' + sizes[i];
  };
  \<close>
  The component calls it on \<^verbatim>\<open>file.size\<close> and on \<^verbatim>\<open>maxSize\<close>, which are non-negative
  integers, so the byte count is a \<open>nat\<close>. \<open>floor_log k n\<close> is the integer that
  \<^verbatim>\<open>Math.floor(Math.log(n) / Math.log(k))\<close> stands for, the floor of the real logarithm
  (lemma \<open>floor_log_is_floor_of_log\<close> below); the rounding error of the two floating-point
  logarithms is not part of the model.
\<close>

definition sizes :: "string list" where
  "sizes = [''Bytes'', ''KB'', ''MB'', ''GB'']"

fun floor_log :: "nat \<Rightarrow> nat \<Rightarrow> nat" where
  "floor_log k n = (if k < 2 \<or> n < k then 0 else Suc (floor_log k (n div k)))"

text \<open>
  \<^verbatim>\<open>(bytes / d).toFixed(2)\<close> is the integer number of hundredths nearest to the quotient,
  the larger one on a tie.
\<close>

definition toFixed2 :: "nat \<Rightarrow> nat \<Rightarrow> nat" where
  "toFixed2 bytes d = (200 * bytes + d) div (2 * d)"

definition digit_char :: "nat \<Rightarrow> char" where
  "digit_char d = ''0123456789'' ! d"

fun nat_to_string :: "nat \<Rightarrow> string" where
  "nat_to_string n =
     (if n < 10 then [digit_char n] else nat_to_string (n div 10) @ [digit_char (n mod 10)])"

text \<open>
  \<^verbatim>\<open>parseFloat(s) + ' '\<close> prints the number again without trailing zeros: \<^verbatim>\<open>1.50\<close> as
  \<^verbatim>\<open>1.5\<close> and \<^verbatim>\<open>1.00\<close> as \<^verbatim>\<open>1\<close>.
\<close>

definition hundredths_to_string :: "nat \<Rightarrow> string" where
  "hundredths_to_string h =
     nat_to_string (h div 100) @
       (if h mod 100 = 0 then []
        else if h mod 10 = 0 then [CHR ''.'', digit_char (h mod 100 div 10)]
        else [CHR ''.'', digit_char (h mod 100 div 10), digit_char (h mod 10)])"

text \<open>Reading a JavaScript array past its end gives \<^verbatim>\<open>undefined\<close>, printed as such.\<close>

definition array_get :: "string list \<Rightarrow> nat \<Rightarrow> string" where
  "array_get xs i = (if i < length xs then xs ! i else ''undefined'')"

definition size_index :: "nat \<Rightarrow> nat" where
  "size_index bytes = floor_log 1024 bytes"

definition size_number :: "nat \<Rightarrow> string" where
  "size_number bytes = hundredths_to_string (toFixed2 bytes (1024 ^ size_index bytes))"

definition formatFileSize :: "nat \<Rightarrow> string" where
  "formatFileSize bytes =
     (if bytes = 0 then ''0 Bytes''
      else let k = 1024; i = floor_log k bytes
           in hundredths_to_string (toFixed2 bytes (k ^ i)) @ '' '' @ array_get sizes i)"

text \<open>A decimal number: digits, then perhaps a point and more digits.\<close>

definition is_digit :: "char \<Rightarrow> bool" where
  "is_digit c = (c \<in> set ''0123456789'')"

definition all_digits :: "string \<Rightarrow> bool" where
  "all_digits s = (s \<noteq> [] \<and> list_all is_digit s)"

definition is_decimal :: "string \<Rightarrow> bool" where
  "is_decimal s =
     (let whole = takeWhile (\<lambda>c. c \<noteq> CHR ''.'') s;
          rest = dropWhile (\<lambda>c. c \<noteq> CHR ''.'') s
      in all_digits whole \<and> (rest = [] \<or> all_digits (tl rest)))"

section \<open>Choosing files on the upload page and in \<^verbatim>\<open>FileUpload\<close>\<close>

text \<open>
  A browser \<^verbatim>\<open>File\<close>: its name, its MIME type and its size in bytes.
\<close>

record web_file =
  file_name :: string
  file_type :: string
  file_size :: nat

text \<open>
  The \<^verbatim>\<open>accept\<close> table that \<^verbatim>\<open>FileUpload\<close> hands to \<^verbatim>\<open>useDropzone\<close>: MIME types with their
  extensions.
\<close>

definition accept :: "(string \<times> string list) list" where
  "accept =
     [(''application/pdf'', [''.pdf'']),
      (''application/vnd.openxmlformats-officedocument.presentationml.presentation'', [''.pptx'']),
      (''application/vnd.ms-powerpoint'', [''.ppt''])]"

definition ends_with :: "string \<Rightarrow> string \<Rightarrow> bool" where
  "ends_with suffix s = (length suffix \<le> length s \<and> drop (length s - length suffix) s = suffix)"

text \<open>
  A PDF or PowerPoint file in the sense of the specification: one of the extensions of
  the table together with its MIME type.
\<close>

definition pdf_or_powerpoint :: "web_file \<Rightarrow> bool" where
  "pdf_or_powerpoint f =
     list_ex (\<lambda>(mime, exts). file_type f = mime \<and> list_ex (\<lambda>e. ends_with e (file_name f)) exts)
       accept"

text \<open>
  \<^verbatim>\<open>UploadPage\<close> (\<^verbatim>\<open>app/upload/page.tsx\<close>) keeps the chosen files in its state \<^verbatim>\<open>files\<close>.
  \<^verbatim>\<open>
  const handleFileSelect = (e) => { if (e.target.files) { setFiles(Array.from(e.target.files)); } };
  const handleDrop = (e) => {
    e.preventDefault();
    if (e.dataTransfer.files) { setFiles(Array.from(e.dataTransfer.files)); }
  };
  \<close>
  The argument is the event's list of files, \<open>None\<close> when it is absent.
\<close>

record upload_page =
  files :: "web_file list"

definition handleFileSelect :: "web_file list option \<Rightarrow> upload_page \<Rightarrow> upload_page" where
  "handleFileSelect target_files s =
     (case target_files of None \<Rightarrow> s | Some fs \<Rightarrow> s\<lparr>files := fs\<rparr>)"

definition handleDrop :: "web_file list option \<Rightarrow> upload_page \<Rightarrow> upload_page" where
  "handleDrop dataTransfer_files s =
     (case dataTransfer_files of None \<Rightarrow> s | Some fs \<Rightarrow> s\<lparr>files := fs\<rparr>)"

text \<open>
  \<^verbatim>\<open>handleUpload\<close> returns early without files or without an API key, and then posts the
  files one by one to \<^verbatim>\<open>/api/v1/documents/upload\<close>. It throws before a post when there is
  no session, and after the first post whose response is not ok. The result is the list
  of files it has posted; \<open>response_ok\<close> is the backend's answer.
\<close>

fun post_files :: "bool \<Rightarrow> (web_file \<Rightarrow> bool) \<Rightarrow> web_file list \<Rightarrow> web_file list" where
  "post_files session response_ok [] = []"
| "post_files session response_ok (f # fs) =
     (if \<not> session then []
      else if \<not> response_ok f then [f]
      else f # post_files session response_ok fs)"

definition handleUpload :: "bool \<Rightarrow> bool \<Rightarrow> (web_file \<Rightarrow> bool) \<Rightarrow> upload_page \<Rightarrow> web_file list" where
  "handleUpload api_key session response_ok s =
     (if files s = [] then []
      else if \<not> api_key then []
      else post_files session response_ok (files s))"

section \<open>The Supabase schema: \<^verbatim>\<open>backend/create_chat_sessions_table.sql\<close>\<close>

text \<open>
  The schema file declares two tables, \<^verbatim>\<open>chat_sessions\<close> and \<^verbatim>\<open>documents\<close>, each with
  column defaults, \<^verbatim>\<open>NOT NULL\<close>, a primary key, a foreign key to \<^verbatim>\<open>auth.users\<close>, a
  \<^verbatim>\<open>BEFORE UPDATE\<close> trigger and four row-level-security policies. The embedding keeps a
  table as the list of its rows; every column is nullable in the row type (\<open>None\<close> is SQL
  \<^verbatim>\<open>NULL\<close>) and \<^verbatim>\<open>NOT NULL\<close> is a constraint that a statement checks, as in PostgreSQL.
  A \<^verbatim>\<open>DECIMAL(p,3)\<close> value is held as an integer number of thousandths.
\<close>

type_synonym uuid = nat
type_synonym timestamp = nat

record chat_session =
  chat_id :: "uuid option"
  chat_user_id :: "uuid option"
  session_id :: "uuid option"
  message :: "string option"
  response :: "string option"
  confidence :: "int option"
  processing_time :: "int option"
  sources_count :: "int option"
  provider_used :: "string option"
  chat_created_at :: "timestamp option"
  chat_updated_at :: "timestamp option"

record document =
  doc_id :: "uuid option"
  doc_user_id :: "uuid option"
  filename :: "string option"
  content_type :: "string option"
  size_bytes :: "int option"
  extracted_text :: "string option"
  status :: "string option"
  file_url :: "string option"
  doc_created_at :: "timestamp option"
  doc_updated_at :: "timestamp option"

text \<open>
  A column of an \<^verbatim>\<open>INSERT\<close> is either left out (its \<^verbatim>\<open>DEFAULT\<close> applies) or given a
  value, which may be \<^verbatim>\<open>NULL\<close>.
\<close>

datatype 'a supplied = DEFAULT | VALUE "'a option"

record chat_session_values =
  new_chat_id :: "uuid supplied"
  new_chat_user_id :: "uuid supplied"
  new_session_id :: "uuid supplied"
  new_message :: "string supplied"
  new_response :: "string supplied"
  new_confidence :: "int supplied"
  new_processing_time :: "int supplied"
  new_sources_count :: "int supplied"
  new_provider_used :: "string supplied"
  new_chat_created_at :: "timestamp supplied"
  new_chat_updated_at :: "timestamp supplied"

record document_values =
  new_doc_id :: "uuid supplied"
  new_doc_user_id :: "uuid supplied"
  new_filename :: "string supplied"
  new_content_type :: "string supplied"
  new_size_bytes :: "int supplied"
  new_extracted_text :: "string supplied"
  new_status :: "string supplied"
  new_file_url :: "string supplied"
  new_doc_created_at :: "timestamp supplied"
  new_doc_updated_at :: "timestamp supplied"

text \<open>
  What a statement reads from outside the table: the value \<^verbatim>\<open>gen_random_uuid()\<close> and
  \<^verbatim>\<open>NOW()\<close> return for it, and the ids present in \<^verbatim>\<open>auth.users\<close>.
\<close>

record env =
  gen_random_uuid :: uuid
  now :: timestamp
  auth_users :: "uuid list"

datatype sql_error = DataException | IntegrityConstraintViolation | InsufficientPrivilege

definition supplied_or :: "'a option \<Rightarrow> 'a supplied \<Rightarrow> 'a option" where
  "supplied_or d s = (case s of DEFAULT \<Rightarrow> d | VALUE v \<Rightarrow> v)"

subsection \<open>Column types\<close>

text \<open>
  \<^verbatim>\<open>VARCHAR(n)\<close>: a longer value is an error unless the excess is all spaces, which are
  cut off. \<^verbatim>\<open>INTEGER\<close> is 32-bit. \<^verbatim>\<open>DECIMAL(p,3)\<close> holds fewer than \<open>10 ^ p\<close> thousandths
  in absolute value. \<open>None\<close> is the error; a \<^verbatim>\<open>NULL\<close> passes every type.
\<close>

definition varchar :: "nat \<Rightarrow> string option \<Rightarrow> string option option" where
  "varchar n v =
     (case v of
        None \<Rightarrow> Some None
      | Some s \<Rightarrow>
          if length s \<le> n then Some (Some s)
          else if list_all (\<lambda>c. c = CHR '' '') (drop n s) then Some (Some (take n s))
          else None)"

definition integer32 :: "int option \<Rightarrow> int option option" where
  "integer32 v =
     (case v of
        None \<Rightarrow> Some None
      | Some i \<Rightarrow> if - (2 ^ 31) \<le> i \<and> i < 2 ^ 31 then Some (Some i) else None)"

definition decimal3 :: "nat \<Rightarrow> int option \<Rightarrow> int option option" where
  "decimal3 p v =
     (case v of
        None \<Rightarrow> Some None
      | Some t \<Rightarrow> if \<bar>t\<bar> < 10 ^ p then Some (Some t) else None)"

subsection \<open>Three-valued conditions\<close>

text \<open>
  An SQL condition is true, false or unknown (\<open>None\<close>). \<^verbatim>\<open>x IN (...)\<close> and \<^verbatim>\<open>a = b\<close> are
  unknown when an operand is \<^verbatim>\<open>NULL\<close>. A \<^verbatim>\<open>CHECK\<close> constraint rejects a row only when its
  condition is false; a policy admits a row only when its condition is true.
\<close>

definition sql_in :: "string option \<Rightarrow> string list \<Rightarrow> bool option" where
  "sql_in v xs = (case v of None \<Rightarrow> None | Some s \<Rightarrow> Some (s \<in> set xs))"

definition sql_eq :: "uuid option \<Rightarrow> uuid option \<Rightarrow> bool option" where
  "sql_eq a b = (case a of None \<Rightarrow> None | Some x \<Rightarrow> (case b of None \<Rightarrow> None | Some y \<Rightarrow> Some (x = y)))"

definition check_holds :: "bool option \<Rightarrow> bool" where
  "check_holds c = (c \<noteq> Some False)"

subsection \<open>Row-level security\<close>

text \<open>
  Every policy of the file is \<^verbatim>\<open>CREATE POLICY name ON table FOR cmd\<close> with
  \<^verbatim>\<open>USING (auth.uid() = user_id)\<close> or \<^verbatim>\<open>WITH CHECK (auth.uid() = user_id)\<close>. The policies are
  permissive: a row passes when some policy of the command admits it, and none passes
  when the command has no policy with the clause. An \<^verbatim>\<open>UPDATE\<close> policy without
  \<^verbatim>\<open>WITH CHECK\<close> checks the new row with its \<^verbatim>\<open>USING\<close> condition.
\<close>

datatype command = CmdSelect | CmdInsert | CmdUpdate | CmdDelete

datatype policy_expr = AuthUidEqUserId

record policy =
  policy_name :: string
  policy_cmd :: command
  using_clause :: "policy_expr option"
  with_check_clause :: "policy_expr option"

definition chat_sessions_policies :: "policy list" where
  "chat_sessions_policies =
     [\<lparr>policy_name = ''Users can view their own chat sessions'', policy_cmd = CmdSelect,
        using_clause = Some AuthUidEqUserId, with_check_clause = None\<rparr>,
      \<lparr>policy_name = ''Users can insert their own chat sessions'', policy_cmd = CmdInsert,
        using_clause = None, with_check_clause = Some AuthUidEqUserId\<rparr>,
      \<lparr>policy_name = ''Users can update their own chat sessions'', policy_cmd = CmdUpdate,
        using_clause = Some AuthUidEqUserId, with_check_clause = None\<rparr>,
      \<lparr>policy_name = ''Users can delete their own chat sessions'', policy_cmd = CmdDelete,
        using_clause = Some AuthUidEqUserId, with_check_clause = None\<rparr>]"

definition documents_policies :: "policy list" where
  "documents_policies =
     [\<lparr>policy_name = ''Users can view their own documents'', policy_cmd = CmdSelect,
        using_clause = Some AuthUidEqUserId, with_check_clause = None\<rparr>,
      \<lparr>policy_name = ''Users can insert their own documents'', policy_cmd = CmdInsert,
        using_clause = None, with_check_clause = Some AuthUidEqUserId\<rparr>,
      \<lparr>policy_name = ''Users can update their own documents'', policy_cmd = CmdUpdate,
        using_clause = Some AuthUidEqUserId, with_check_clause = None\<rparr>,
      \<lparr>policy_name = ''Users can delete their own documents'', policy_cmd = CmdDelete,
        using_clause = Some AuthUidEqUserId, with_check_clause = None\<rparr>]"

text \<open>
  The role a statement runs as. Supabase's service key bypasses row-level security; a
  signed-in user runs as \<open>Authenticated u\<close> with \<^verbatim>\<open>auth.uid() = u\<close>; without a session
  \<^verbatim>\<open>auth.uid()\<close> is \<^verbatim>\<open>NULL\<close>.
\<close>

datatype role = ServiceRole | Authenticated uuid | Anon

fun auth_uid :: "role \<Rightarrow> uuid option" where
  "auth_uid ServiceRole = None"
| "auth_uid (Authenticated u) = Some u"
| "auth_uid Anon = None"

fun eval_policy_expr :: "role \<Rightarrow> uuid option \<Rightarrow> policy_expr \<Rightarrow> bool option" where
  "eval_policy_expr r user_id AuthUidEqUserId = sql_eq (auth_uid r) user_id"

definition admits :: "role \<Rightarrow> uuid option \<Rightarrow> policy_expr option \<Rightarrow> bool" where
  "admits r user_id clause =
     (case clause of None \<Rightarrow> False | Some e \<Rightarrow> eval_policy_expr r user_id e = Some True)"

definition check_clause :: "policy \<Rightarrow> policy_expr option" where
  "check_clause p =
     (case with_check_clause p of
        Some e \<Rightarrow> Some e
      | None \<Rightarrow> if policy_cmd p = CmdUpdate then using_clause p else None)"

definition using_passes :: "policy list \<Rightarrow> command \<Rightarrow> role \<Rightarrow> uuid option \<Rightarrow> bool" where
  "using_passes ps cmd r user_id =
     (r = ServiceRole \<or>
      list_ex (\<lambda>p. policy_cmd p = cmd \<and> admits r user_id (using_clause p)) ps)"

definition with_check_passes :: "policy list \<Rightarrow> command \<Rightarrow> role \<Rightarrow> uuid option \<Rightarrow> bool" where
  "with_check_passes ps cmd r user_id =
     (r = ServiceRole \<or>
      list_ex (\<lambda>p. policy_cmd p = cmd \<and> admits r user_id (check_clause p)) ps)"

subsection \<open>Tables and statements\<close>

text \<open>
  What the file declares for one table: how an \<^verbatim>\<open>INSERT\<close>'s columns become a row, the
  column types, the row constraints (\<^verbatim>\<open>NOT NULL\<close>, \<^verbatim>\<open>CHECK\<close>), the primary key, the
  \<^verbatim>\<open>user_id\<close> column that references \<^verbatim>\<open>auth.users\<close> and that the policies read, the
  \<^verbatim>\<open>BEFORE UPDATE\<close> trigger, and the policies.
\<close>

record ('r, 'v) table_schema =
  apply_defaults :: "env \<Rightarrow> 'v \<Rightarrow> 'r"
  column_types :: "'r \<Rightarrow> 'r option"
  row_constraints :: "'r \<Rightarrow> bool"
  primary_key :: "'r \<Rightarrow> uuid option"
  user_id :: "'r \<Rightarrow> uuid option"
  before_update :: "env \<Rightarrow> 'r \<Rightarrow> 'r"
  policies :: "policy list"

definition documents_apply_defaults :: "env \<Rightarrow> document_values \<Rightarrow> document" where
  "documents_apply_defaults e v =
     \<lparr>doc_id = supplied_or (Some (gen_random_uuid e)) (new_doc_id v),
      doc_user_id = supplied_or None (new_doc_user_id v),
      filename = supplied_or None (new_filename v),
      content_type = supplied_or None (new_content_type v),
      size_bytes = supplied_or None (new_size_bytes v),
      extracted_text = supplied_or None (new_extracted_text v),
      status = supplied_or (Some ''pending'') (new_status v),
      file_url = supplied_or None (new_file_url v),
      doc_created_at = supplied_or (Some (now e)) (new_doc_created_at v),
      doc_updated_at = supplied_or (Some (now e)) (new_doc_updated_at v)\<rparr>"

definition documents_column_types :: "document \<Rightarrow> document option" where
  "documents_column_types r =
     (case varchar 255 (filename r) of None \<Rightarrow> None | Some f \<Rightarrow>
      case varchar 100 (content_type r) of None \<Rightarrow> None | Some c \<Rightarrow>
      case integer32 (size_bytes r) of None \<Rightarrow> None | Some n \<Rightarrow>
      case varchar 20 (status r) of None \<Rightarrow> None | Some s \<Rightarrow>
        Some (r\<lparr>filename := f, content_type := c, size_bytes := n, status := s\<rparr>))"

definition status_check :: "document \<Rightarrow> bool option" where
  "status_check r = sql_in (status r) [''pending'', ''processing'', ''processed'', ''failed'']"

definition documents_row_constraints :: "document \<Rightarrow> bool" where
  "documents_row_constraints r =
     (doc_id r \<noteq> None \<and> doc_user_id r \<noteq> None \<and> filename r \<noteq> None \<and>
      check_holds (status_check r))"

definition update_updated_at_column_documents :: "env \<Rightarrow> document \<Rightarrow> document" where
  "update_updated_at_column_documents e r = r\<lparr>doc_updated_at := Some (now e)\<rparr>"

definition documents :: "(document, document_values) table_schema" where
  "documents =
     \<lparr>apply_defaults = documents_apply_defaults,
      column_types = documents_column_types,
      row_constraints = documents_row_constraints,
      primary_key = doc_id,
      user_id = doc_user_id,
      before_update = update_updated_at_column_documents,
      policies = documents_policies\<rparr>"

definition chat_sessions_apply_defaults :: "env \<Rightarrow> chat_session_values \<Rightarrow> chat_session" where
  "chat_sessions_apply_defaults e v =
     \<lparr>chat_id = supplied_or (Some (gen_random_uuid e)) (new_chat_id v),
      chat_user_id = supplied_or None (new_chat_user_id v),
      session_id = supplied_or None (new_session_id v),
      message = supplied_or None (new_message v),
      response = supplied_or None (new_response v),
      confidence = supplied_or (Some 0) (new_confidence v),
      processing_time = supplied_or (Some 0) (new_processing_time v),
      sources_count = supplied_or (Some 0) (new_sources_count v),
      provider_used = supplied_or (Some ''openai'') (new_provider_used v),
      chat_created_at = supplied_or (Some (now e)) (new_chat_created_at v),
      chat_updated_at = supplied_or (Some (now e)) (new_chat_updated_at v)\<rparr>"

definition chat_sessions_column_types :: "chat_session \<Rightarrow> chat_session option" where
  "chat_sessions_column_types r =
     (case decimal3 3 (confidence r) of None \<Rightarrow> None | Some c \<Rightarrow>
      case decimal3 6 (processing_time r) of None \<Rightarrow> None | Some t \<Rightarrow>
      case integer32 (sources_count r) of None \<Rightarrow> None | Some n \<Rightarrow>
      case varchar 20 (provider_used r) of None \<Rightarrow> None | Some p \<Rightarrow>
        Some (r\<lparr>confidence := c, processing_time := t, sources_count := n,
               provider_used := p\<rparr>))"

definition chat_sessions_row_constraints :: "chat_session \<Rightarrow> bool" where
  "chat_sessions_row_constraints r =
     (chat_id r \<noteq> None \<and> chat_user_id r \<noteq> None \<and> session_id r \<noteq> None \<and>
      message r \<noteq> None \<and> response r \<noteq> None)"

definition update_updated_at_column_chat_sessions :: "env \<Rightarrow> chat_session \<Rightarrow> chat_session" where
  "update_updated_at_column_chat_sessions e r = r\<lparr>chat_updated_at := Some (now e)\<rparr>"

definition chat_sessions :: "(chat_session, chat_session_values) table_schema" where
  "chat_sessions =
     \<lparr>apply_defaults = chat_sessions_apply_defaults,
      column_types = chat_sessions_column_types,
      row_constraints = chat_sessions_row_constraints,
      primary_key = chat_id,
      user_id = chat_user_id,
      before_update = update_updated_at_column_chat_sessions,
      policies = chat_sessions_policies\<rparr>"

text \<open>
  A statement: \<^verbatim>\<open>SELECT ... WHERE w\<close>, \<^verbatim>\<open>INSERT ... VALUES v\<close>,
  \<^verbatim>\<open>UPDATE ... SET f WHERE w\<close> (the new row is \<open>f\<close> of the old one) and
  \<^verbatim>\<open>DELETE ... WHERE w\<close>.
\<close>

datatype ('r, 'v) statement =
    Select "'r \<Rightarrow> bool"
  | Insert 'v
  | Update "'r \<Rightarrow> bool" "'r \<Rightarrow> 'r"
  | Delete "'r \<Rightarrow> bool"

text \<open>
  The new version of one row under an \<^verbatim>\<open>UPDATE\<close>: a row the policy's \<^verbatim>\<open>USING\<close> hides or
  \<^verbatim>\<open>WHERE\<close> leaves out stays as it is; otherwise the trigger runs on the assigned row,
  the column types apply, the policy checks the new row and the row constraints hold, or
  the statement fails.
\<close>

definition update_row ::
  "('r, 'v) table_schema \<Rightarrow> env \<Rightarrow> role \<Rightarrow> ('r \<Rightarrow> bool) \<Rightarrow> ('r \<Rightarrow> 'r) \<Rightarrow> 'r \<Rightarrow> sql_error + 'r" where
  "update_row t e r w f old =
     (if \<not> (using_passes (policies t) CmdUpdate r (user_id t old) \<and> w old) then Inr old
      else case column_types t (before_update t e (f old)) of
             None \<Rightarrow> Inl DataException
           | Some new \<Rightarrow>
               if \<not> with_check_passes (policies t) CmdUpdate r (user_id t new)
               then Inl InsufficientPrivilege
               else if \<not> (row_constraints t new \<and> user_id t new \<in> Some ` set (auth_users e))
               then Inl IntegrityConstraintViolation
               else Inr new)"

fun update_rows ::
  "('r, 'v) table_schema \<Rightarrow> env \<Rightarrow> role \<Rightarrow> ('r \<Rightarrow> bool) \<Rightarrow> ('r \<Rightarrow> 'r) \<Rightarrow> 'r list \<Rightarrow> sql_error + 'r list" where
  "update_rows t e r w f [] = Inr []"
| "update_rows t e r w f (old # rows) =
     (case update_row t e r w f old of
        Inl err \<Rightarrow> Inl err
      | Inr new \<Rightarrow>
          (case update_rows t e r w f rows of
             Inl err \<Rightarrow> Inl err
           | Inr news \<Rightarrow> Inr (new # news)))"

text \<open>
  One statement on a table: the rows it returns and the table afterwards, or the error
  that aborts it and leaves the table as it was.
\<close>

fun exec ::
  "('r, 'v) table_schema \<Rightarrow> env \<Rightarrow> role \<Rightarrow> ('r, 'v) statement \<Rightarrow> 'r list \<Rightarrow>
     sql_error + ('r list \<times> 'r list)" where
  "exec t e r (Select w) rows =
     Inr (filter (\<lambda>x. using_passes (policies t) CmdSelect r (user_id t x) \<and> w x) rows, rows)"
| "exec t e r (Insert v) rows =
     (case column_types t (apply_defaults t e v) of
        None \<Rightarrow> Inl DataException
      | Some new \<Rightarrow>
          if \<not> with_check_passes (policies t) CmdInsert r (user_id t new)
          then Inl InsufficientPrivilege
          else if \<not> (row_constraints t new \<and>
                      primary_key t new \<notin> set (map (primary_key t) rows) \<and>
                      user_id t new \<in> Some ` set (auth_users e))
          then Inl IntegrityConstraintViolation
          else Inr ([], rows @ [new]))"
| "exec t e r (Update w f) rows =
     (case update_rows t e r w f rows of
        Inl err \<Rightarrow> Inl err
      | Inr rows' \<Rightarrow>
          if distinct (map (primary_key t) rows') then Inr ([], rows')
          else Inl IntegrityConstraintViolation)"
| "exec t e r (Delete w) rows =
     Inr ([], filter (\<lambda>x. \<not> (using_passes (policies t) CmdDelete r (user_id t x) \<and> w x)) rows)"

text \<open>
  A history of statements, each with its environment and role, from a given table; a
  failed statement changes nothing.
\<close>

fun run ::
  "('r, 'v) table_schema \<Rightarrow> (env \<times> role \<times> ('r, 'v) statement) list \<Rightarrow> 'r list \<Rightarrow> 'r list" where
  "run t [] rows = rows"
| "run t ((e, r, s) # ss) rows =
     run t ss (case exec t e r s rows of Inl err \<Rightarrow> rows | Inr (out, rows') \<Rightarrow> rows')"

text \<open>
  Policies that admit, for a signed-in user, only rows whose \<^verbatim>\<open>user_id\<close> is that user's id.
\<close>

definition own_rows_only :: "policy list \<Rightarrow> bool" where
  "own_rows_only ps =
     (\<forall>cmd u x. (using_passes ps cmd (Authenticated u) x \<longrightarrow> x = Some u) \<and>
                (with_check_passes ps cmd (Authenticated u) x \<longrightarrow> x = Some u))"

text \<open>The four values that the \<^verbatim>\<open>CHECK\<close> on \<^verbatim>\<open>documents.status\<close> lists.\<close>

definition status_values :: "string list" where
  "status_values = [''pending'', ''processing'', ''processed'', ''failed'']"

subsection \<open>Example rows\<close>

definition example_env :: env where
  "example_env = \<lparr>gen_random_uuid = 100, now = 5, auth_users = [1, 2]\<rparr>"

definition example_document :: "uuid \<Rightarrow> uuid \<Rightarrow> document" where
  "example_document i u =
     \<lparr>doc_id = Some i, doc_user_id = Some u, filename = Some ''brand.pdf'',
      content_type = Some ''application/pdf'', size_bytes = Some 2048,
      extracted_text = None, status = Some ''pending'', file_url = None,
      doc_created_at = Some 0, doc_updated_at = Some 0\<rparr>"

definition example_chat_session :: "uuid \<Rightarrow> uuid \<Rightarrow> chat_session" where
  "example_chat_session i u =
     \<lparr>chat_id = Some i, chat_user_id = Some u, session_id = Some 0,
      message = Some ''What is our primary brand color?'', response = Some ''Blue'',
      confidence = Some 950, processing_time = Some 1200, sources_count = Some 1,
      provider_used = Some ''openai'', chat_created_at = Some 0, chat_updated_at = Some 0\<rparr>"

definition example_document_values :: "string supplied \<Rightarrow> document_values" where
  "example_document_values s =
     \<lparr>new_doc_id = DEFAULT, new_doc_user_id = VALUE (Some 1),
      new_filename = VALUE (Some ''brand.pdf''), new_content_type = DEFAULT,
      new_size_bytes = DEFAULT, new_extracted_text = DEFAULT, new_status = s,
      new_file_url = DEFAULT, new_doc_created_at = DEFAULT, new_doc_updated_at = DEFAULT\<rparr>"

section \<open>The intelligence engine, from its specification\<close>

text \<open>
  Modelled from the spec: \<^verbatim>\<open>TextChunker\<close>, which "splits extracted text into token-bounded,
  overlapping segments for embedding"; the engine's source (\<^verbatim>\<open>intelligence_engine.py\<close>) is
  not among the repository's files, whose documentation gives a chunk size of 500 tokens
  with an overlap of 50, both configurable. The text is its list of tokens. A window of
  \<open>chunk_size\<close> tokens moves on by \<open>chunk_size - overlap\<close> tokens until it reaches the end
  of the text, so that each window starts with the last \<open>overlap\<close> tokens of the one
  before. An empty text has no chunks, and neither has a configuration whose overlap is
  not smaller than the chunk size, for which the window would not move.
\<close>

function chunk_tokens :: "nat \<Rightarrow> nat \<Rightarrow> 'a list \<Rightarrow> 'a list list" where
  "chunk_tokens chunk_size overlap tokens =
     (if tokens = [] \<or> chunk_size \<le> overlap then []
      else if length tokens \<le> chunk_size then [tokens]
      else take chunk_size tokens #
           chunk_tokens chunk_size overlap (drop (chunk_size - overlap) tokens))"
  by pat_completeness auto
termination
  by (relation "measure (\<lambda>(chunk_size, overlap, tokens). length tokens)") auto

definition default_chunk_size :: nat where
  "default_chunk_size = 500"

definition default_overlap :: nat where
  "default_overlap = 50"

text \<open>
  Two segments overlap by \<open>n\<close> tokens when the last \<open>n\<close> tokens of the first are the first
  \<open>n\<close> tokens of the second.
\<close>

definition overlap_by :: "nat \<Rightarrow> 'a list \<Rightarrow> 'a list \<Rightarrow> bool" where
  "overlap_by n c1 c2 =
     (n \<le> length c1 \<and> n \<le> length c2 \<and> drop (length c1 - n) c1 = take n c2)"

fun consecutive_overlap :: "nat \<Rightarrow> 'a list list \<Rightarrow> bool" where
  "consecutive_overlap n [] = True"
| "consecutive_overlap n [c] = True"
| "consecutive_overlap n (c1 # c2 # cs) = (overlap_by n c1 c2 \<and> consecutive_overlap n (c2 # cs))"

text \<open>
  Modelled from the spec: \<^verbatim>\<open>VectorDatabase\<close>, which "stores chunk embeddings and performs
  nearest-neighbor retrieval given a query embedding"; its source is not among the
  repository's files either. The store is the list of chunks with their embeddings, in
  the order of insertion. A search ranks the stored chunks by the similarity of their
  embedding to the query's, the most similar first, and returns the first \<open>k\<close> of them.
  The similarity measure belongs to the embedding model and is a parameter.
\<close>

type_synonym ('c, 'e) vector_store = "('c \<times> 'e) list"

definition add_chunks :: "('c, 'e) vector_store \<Rightarrow> ('c \<times> 'e) list \<Rightarrow> ('c, 'e) vector_store" where
  "add_chunks store entries = store @ entries"

definition similarity_search ::
  "('e \<Rightarrow> 'e \<Rightarrow> 's::linorder) \<Rightarrow> ('c, 'e) vector_store \<Rightarrow> 'e \<Rightarrow> nat \<Rightarrow> ('c \<times> 'e) list" where
  "similarity_search similarity store query k =
     take k (rev (sort_key (\<lambda>entry. similarity query (snd entry)) store))"

text \<open>An example similarity on integer embeddings: the nearer, the more similar.\<close>

definition nearness :: "int \<Rightarrow> int \<Rightarrow> int" where
  "nearness q e = - \<bar>q - e\<bar>"

chapter \<open>Properties\<close>

section \<open>\<^verbatim>\<open>formatFileSize\<close>\<close>

declare floor_log.simps [simp del]
declare nat_to_string.simps [simp del]

text \<open>
  \<open>floor_log k n\<close> is the exponent of the largest power of \<open>k\<close> that is at most \<open>n\<close>, so
  it is the floor of the real logarithm that the source computes.
\<close>

lemma floor_log_bounds:
  "2 \<le> k \<Longrightarrow> 1 \<le> n \<Longrightarrow> k ^ floor_log k n \<le> n \<and> n < k ^ Suc (floor_log k n)"
proof (induction k n rule: floor_log.induct)
  case (1 k n)
  show ?case
  proof (cases "n < k")
    case True
    with 1 show ?thesis by (simp add: floor_log.simps[of k n])
  next
    case False
    with 1 have ge: "1 \<le> n div k" by (simp add: div_greater_zero_iff Suc_le_eq)
    from 1 False ge have IH: "k ^ floor_log k (n div k) \<le> n div k \<and> n div k < k ^ Suc (floor_log k (n div k))"
      by simp
    have eq: "floor_log k n = Suc (floor_log k (n div k))"
      using False 1(2) by (simp add: floor_log.simps[of k n])
    have kpos: "0 < k" using 1(2) by simp
    have "k * k ^ floor_log k (n div k) \<le> k * (n div k)"
      using IH by simp
    also have "\<dots> \<le> n" by simp
    finally have a: "k ^ floor_log k n \<le> n" by (simp add: eq)
    have "n < k ^ Suc (floor_log k (n div k)) * k"
      using IH kpos by (simp only: div_less_iff_less_mult[symmetric])
    then have b: "n < k ^ Suc (floor_log k n)" by (simp add: eq mult.commute)
    from a b show ?thesis by simp
  qed
qed

lemma floor_log_is_floor_of_log:
  assumes "1 \<le> n"
  shows "\<lfloor>log 1024 (real n)\<rfloor> = int (floor_log 1024 n)"
proof -
  have "(1024::nat) ^ floor_log 1024 n \<le> n \<and> n < 1024 ^ Suc (floor_log 1024 n)"
    using assms by (intro floor_log_bounds) simp_all
  then have "\<lfloor>log (real (1024::nat)) (real n)\<rfloor> = int (floor_log 1024 n)"
    by (intro floor_log_nat_eq_if) simp_all
  then show ?thesis by simp
qed

lemma floor_log_less_iff:
  assumes "2 \<le> k" "1 \<le> n"
  shows "floor_log k n < m \<longleftrightarrow> n < k ^ m"
proof
  assume "floor_log k n < m"
  then have "Suc (floor_log k n) \<le> m" by simp
  then have "k ^ Suc (floor_log k n) \<le> k ^ m"
    using assms(1) by (intro power_increasing) simp_all
  with floor_log_bounds[OF assms] show "n < k ^ m" by simp
next
  assume lt: "n < k ^ m"
  show "floor_log k n < m"
  proof (rule ccontr)
    assume "\<not> floor_log k n < m"
    then have "m \<le> floor_log k n" by simp
    then have "k ^ m \<le> k ^ floor_log k n"
      using assms(1) by (intro power_increasing) simp_all
    with floor_log_bounds[OF assms] lt show False by simp
  qed
qed

lemma is_digit_digit_char: "d < 10 \<Longrightarrow> is_digit (digit_char d)"
  unfolding is_digit_def digit_char_def by (rule nth_mem) simp

lemma is_digit_not_point: "is_digit c \<Longrightarrow> c \<noteq> CHR ''.''"
  by (auto simp: is_digit_def)

lemma all_digits_nat_to_string: "all_digits (nat_to_string n)"
proof (induction n rule: nat_to_string.induct)
  case (1 n)
  show ?case
  proof (cases "n < 10")
    case True
    then show ?thesis
      by (simp add: nat_to_string.simps[of n] all_digits_def is_digit_digit_char)
  next
    case False
    with 1 have "all_digits (nat_to_string (n div 10))" by simp
    moreover have "is_digit (digit_char (n mod 10))" by (simp add: is_digit_digit_char)
    ultimately show ?thesis
      using False by (simp add: nat_to_string.simps[of n] all_digits_def)
  qed
qed

lemma is_decimal_whole:
  assumes "all_digits w"
  shows "is_decimal w"
proof -
  have "\<forall>c\<in>set w. c \<noteq> CHR ''.''"
    using assms by (auto simp: all_digits_def list_all_iff dest: is_digit_not_point)
  then have tw: "takeWhile (\<lambda>c. c \<noteq> CHR ''.'') w = w"
    and dw: "dropWhile (\<lambda>c. c \<noteq> CHR ''.'') w = []"
    by (simp_all add: takeWhile_eq_all_conv)
  show ?thesis
    unfolding is_decimal_def Let_def tw dw using assms by simp
qed

lemma is_decimal_point:
  assumes "all_digits w" "all_digits f"
  shows "is_decimal (w @ CHR ''.'' # f)"
proof -
  have nodot: "\<forall>c\<in>set w. c \<noteq> CHR ''.''"
    using assms(1) by (auto simp: all_digits_def list_all_iff dest: is_digit_not_point)
  then have "takeWhile (\<lambda>c. c \<noteq> CHR ''.'') (w @ CHR ''.'' # f) = w"
    by (simp add: takeWhile_append2 takeWhile_eq_all_conv)
  moreover from nodot have "dropWhile (\<lambda>c. c \<noteq> CHR ''.'') (w @ CHR ''.'' # f) = CHR ''.'' # f"
    by (simp add: dropWhile_append2)
  ultimately show ?thesis using assms by (simp add: is_decimal_def Let_def)
qed

lemma is_decimal_hundredths: "is_decimal (hundredths_to_string h)"
proof -
  have w: "all_digits (nat_to_string (h div 100))"
    by (rule all_digits_nat_to_string)
  have d1: "is_digit (digit_char (h mod 100 div 10))"
    by (rule is_digit_digit_char) (simp add: div_less_iff_less_mult)
  have d2: "is_digit (digit_char (h mod 10))"
    by (rule is_digit_digit_char) simp
  consider "h mod 100 = 0" | "h mod 100 \<noteq> 0" "h mod 10 = 0" | "h mod 100 \<noteq> 0" "h mod 10 \<noteq> 0"
    by blast
  then show ?thesis
  proof cases
    case 1
    then show ?thesis
      using w by (simp add: hundredths_to_string_def is_decimal_whole)
  next
    case 2
    have "is_decimal (nat_to_string (h div 100) @ CHR ''.'' # [digit_char (h mod 100 div 10)])"
      using w d1 by (intro is_decimal_point) (simp_all add: all_digits_def)
    with 2 show ?thesis by (simp add: hundredths_to_string_def)
  next
    case 3
    have "is_decimal (nat_to_string (h div 100) @
            CHR ''.'' # [digit_char (h mod 100 div 10), digit_char (h mod 10)])"
      using w d1 d2 by (intro is_decimal_point) (simp_all add: all_digits_def)
    with 3 show ?thesis by (simp add: hundredths_to_string_def)
  qed
qed

text \<open>
  C10: \<^verbatim>\<open>formatFileSize\<close> returns \<^verbatim>\<open>0 Bytes\<close> for 0. For every byte count \<open>b\<close> with
  \<open>1 \<le> b < 1024 ^ 4\<close> it returns a decimal number, a space and the unit
  \<open>sizes ! size_index b\<close>, one of \<^verbatim>\<open>Bytes\<close>, \<^verbatim>\<open>KB\<close>, \<^verbatim>\<open>MB\<close>, \<^verbatim>\<open>GB\<close>. For \<open>b \<ge> 1\<close> the index
  is inside the array exactly when \<open>b < 1024 ^ 4\<close>: from \<open>1024 ^ 4\<close> on it is past the end.
\<close>

theorem formatFileSize_unit_in_bounds:
  "formatFileSize 0 = ''0 Bytes'' \<and>
   (1 \<le> b \<and> b < 1024 ^ 4 \<longrightarrow>
      formatFileSize b = size_number b @ '' '' @ sizes ! size_index b \<and>
      is_decimal (size_number b) \<and>
      size_index b < length sizes \<and>
      sizes ! size_index b \<in> set [''Bytes'', ''KB'', ''MB'', ''GB'']) \<and>
   (1 \<le> b \<longrightarrow> (size_index b < length sizes \<longleftrightarrow> b < 1024 ^ 4))"
proof -
  have zero: "formatFileSize 0 = ''0 Bytes''"
    by (simp add: formatFileSize_def)
  have len: "length sizes = 4"
    by (simp add: sizes_def)
  have iff: "size_index b < length sizes \<longleftrightarrow> b < 1024 ^ 4" if "1 \<le> b"
    using floor_log_less_iff[of 1024 b 4] that by (simp add: size_index_def len)
  have main: "formatFileSize b = size_number b @ '' '' @ sizes ! size_index b \<and>
      is_decimal (size_number b) \<and> size_index b < length sizes \<and>
      sizes ! size_index b \<in> set [''Bytes'', ''KB'', ''MB'', ''GB'']"
    if b: "1 \<le> b" "b < 1024 ^ 4"
  proof -
    from b iff have i: "size_index b < length sizes" by simp
    have "formatFileSize b = size_number b @ '' '' @ array_get sizes (size_index b)"
      using b(1) by (simp add: formatFileSize_def size_number_def size_index_def Let_def)
    with i have eq: "formatFileSize b = size_number b @ '' '' @ sizes ! size_index b"
      by (simp add: array_get_def)
    have dec: "is_decimal (size_number b)"
      by (simp add: size_number_def is_decimal_hundredths)
    from i have "sizes ! size_index b \<in> set sizes" by (rule nth_mem)
    then have "sizes ! size_index b \<in> set [''Bytes'', ''KB'', ''MB'', ''GB'']"
      by (simp only: sizes_def)
    with eq dec i show ?thesis by simp
  qed
  from zero main iff show ?thesis by blast
qed

text \<open>The instance \<open>b = 1536\<close>: one and a half kilobytes.\<close>

lemma floor_log_1536: "floor_log 1024 1536 = 1"
  by (simp add: floor_log.simps[of 1024 1536] floor_log.simps[of 1024 "Suc 0"])

theorem formatFileSize_unit_in_bounds_witness:
  "(1::nat) \<le> 1536 \<and> (1536::nat) < 1024 ^ 4 \<and>
   formatFileSize 1536 = ''1.5 KB'' \<and> size_number 1536 = ''1.5'' \<and>
   is_decimal (size_number 1536) \<and> size_index 1536 = 1 \<and> sizes ! size_index 1536 = ''KB''"
  using formatFileSize_unit_in_bounds[of 1536]
  by (simp add: size_number_def size_index_def floor_log_1536 toFixed2_def
      hundredths_to_string_def nat_to_string.simps[of "Suc 0"] digit_char_def sizes_def)


section \<open>The \<^verbatim>\<open>CHECK\<close> on \<^verbatim>\<open>documents.status\<close>\<close>

text \<open>
  A statement that succeeds leaves the row constraints of its table in force, so they
  hold of every row after any history of statements.
\<close>

lemma update_row_constraints:
  "update_row t e r w f old = Inr new \<Longrightarrow> row_constraints t old \<Longrightarrow> row_constraints t new"
  by (auto simp: update_row_def split: if_splits option.splits)

lemma update_rows_constraints:
  "update_rows t e r w f rows = Inr rows' \<Longrightarrow> list_all (row_constraints t) rows \<Longrightarrow>
   list_all (row_constraints t) rows'"
proof (induction rows arbitrary: rows')
  case Nil
  then show ?case by simp
next
  case (Cons old rows)
  then show ?case
    by (auto split: sum.splits dest: update_row_constraints)
qed

lemma exec_constraints:
  assumes "exec t e r s rows = Inr (out, rows')" "list_all (row_constraints t) rows"
  shows "list_all (row_constraints t) rows'"
proof (cases s)
  case (Select w)
  with assms show ?thesis by auto
next
  case (Insert v)
  with assms show ?thesis by (auto split: option.splits if_splits)
next
  case (Update w f)
  with assms show ?thesis
    by (auto split: sum.splits if_splits dest: update_rows_constraints)
next
  case (Delete w)
  with assms show ?thesis by (auto simp: list_all_iff)
qed

lemma run_constraints:
  "list_all (row_constraints t) rows \<Longrightarrow> list_all (row_constraints t) (run t history rows)"
proof (induction history arbitrary: rows)
  case Nil
  then show ?case by simp
next
  case (Cons step history)
  obtain e r s where step: "step = (e, r, s)" by (cases step) auto
  show ?case
  proof (cases "exec t e r s rows")
    case (Inl err)
    with Cons step show ?thesis by simp
  next
    case (Inr res)
    obtain out rows' where res: "res = (out, rows')" by (cases res) auto
    from Inr res Cons.prems have "list_all (row_constraints t) rows'"
      by (auto dest: exec_constraints)
    with Cons.IH Inr res step show ?thesis by simp
  qed
qed

text \<open>
  The \<^verbatim>\<open>CHECK\<close> holds of a row when its condition is not false: the status is one of
  the four values, or it is \<^verbatim>\<open>NULL\<close> and the condition unknown.
\<close>

lemma status_check_values:
  "check_holds (status_check d) \<longleftrightarrow> status d = None \<or> status d \<in> Some ` set status_values"
  by (auto simp: check_holds_def status_check_def sql_in_def status_values_def split: option.splits)

text \<open>
  What the \<^verbatim>\<open>CHECK\<close> does keep: after any history of statements on an empty
  \<^verbatim>\<open>documents\<close> table, under any roles, no row has a status outside the four values
  other than \<^verbatim>\<open>NULL\<close>, so none has the status \<^verbatim>\<open>completed\<close>.
\<close>

lemma check_keeps_status:
  "\<forall>d \<in> set (run documents history []).
     (status d = None \<or> status d \<in> Some ` set status_values) \<and> status d \<noteq> Some ''completed''"
proof
  fix d
  assume d: "d \<in> set (run documents history [])"
  have "list_all (row_constraints documents) (run documents history [])"
    by (rule run_constraints) simp
  with d have "documents_row_constraints d"
    by (simp add: list_all_iff documents_def)
  then have "check_holds (status_check d)"
    by (simp add: documents_row_constraints_def)
  then have ok: "status d = None \<or> status d \<in> Some ` set status_values"
    by (simp add: status_check_values)
  then have "status d \<noteq> Some ''completed''"
    by (auto simp: status_values_def)
  with ok show "(status d = None \<or> status d \<in> Some ` set status_values) \<and>
      status d \<noteq> Some ''completed''"
    by simp
qed

text \<open>
  An \<^verbatim>\<open>INSERT\<close> into the empty table that asks for the status \<^verbatim>\<open>completed\<close> is refused,
  and it is the \<^verbatim>\<open>CHECK\<close> that refuses it: the same row with the default status is stored.
\<close>

lemma exec_insert_completed_rejected:
  "exec documents example_env (Authenticated 1)
     (Insert (example_document_values (VALUE (Some ''completed'')))) [] =
   Inl IntegrityConstraintViolation"
  by (simp add: documents_def example_env_def example_document_values_def
      documents_apply_defaults_def documents_column_types_def documents_row_constraints_def
      documents_policies_def supplied_or_def varchar_def integer32_def status_check_def sql_in_def
      check_holds_def with_check_passes_def admits_def check_clause_def sql_eq_def)

lemma run_insert_default_status:
  "map status (run documents [(example_env, Authenticated 1, Insert (example_document_values DEFAULT))] []) =
     [Some ''pending'']"
  by (simp add: documents_def example_env_def example_document_values_def
      documents_apply_defaults_def documents_column_types_def documents_row_constraints_def
      documents_policies_def supplied_or_def varchar_def integer32_def status_check_def sql_in_def
      check_holds_def with_check_passes_def admits_def check_clause_def sql_eq_def)

text \<open>
  The column is declared \<^verbatim>\<open>VARCHAR(20) DEFAULT 'pending' CHECK (...)\<close> without the
  \<^verbatim>\<open>NOT NULL\<close> that \<^verbatim>\<open>user_id\<close> and \<^verbatim>\<open>filename\<close> carry, and the condition of the \<^verbatim>\<open>CHECK\<close> is
  unknown, not false, for \<^verbatim>\<open>NULL\<close>. An \<^verbatim>\<open>INSERT\<close> that gives \<^verbatim>\<open>NULL\<close> for the status
  therefore succeeds.
\<close>

lemma run_insert_null_status:
  "run documents [(example_env, Authenticated 1, Insert (example_document_values (VALUE None)))] [] =
     [(example_document 100 1)\<lparr>content_type := None, size_bytes := None, status := None,
        doc_created_at := Some 5, doc_updated_at := Some 5\<rparr>]"
  by (simp add: documents_def example_env_def example_document_values_def example_document_def
      documents_apply_defaults_def documents_column_types_def documents_row_constraints_def
      documents_policies_def supplied_or_def varchar_def integer32_def status_check_def sql_in_def
      check_holds_def with_check_passes_def admits_def check_clause_def sql_eq_def)

text \<open>
  C9: every row of \<^verbatim>\<open>documents\<close> is to have a status equal to one of \<^verbatim>\<open>pending\<close>,
  \<^verbatim>\<open>processing\<close>, \<^verbatim>\<open>processed\<close>, \<^verbatim>\<open>failed\<close>, and the frontend's type of the table
  (\<^verbatim>\<open>lib/supabase.ts\<close>) has \<^verbatim>\<open>status: string\<close>, never null. The schema does not keep that:
  after the \<^verbatim>\<open>INSERT\<close> of signed-in user 1 with \<^verbatim>\<open>NULL\<close> for the status, the table holds one
  row, and its status is \<^verbatim>\<open>NULL\<close>, none of the four values.
\<close>

theorem documents_stores_null_status:
  "map status
     (run documents [(example_env, Authenticated 1, Insert (example_document_values (VALUE None)))] []) =
   [None] \<and> None \<notin> Some ` set status_values"
  unfolding run_insert_null_status by (simp add: example_document_def)

section \<open>Row-level security\<close>

text \<open>
  For a signed-in user, the policies of both tables admit exactly the rows whose
  \<^verbatim>\<open>user_id\<close> is the user's id: to read, change or delete with \<^verbatim>\<open>USING\<close>, and as the new
  row of an \<^verbatim>\<open>INSERT\<close> or \<^verbatim>\<open>UPDATE\<close> with the check.
\<close>

lemma using_passes_owner:
  assumes "ps = documents_policies \<or> ps = chat_sessions_policies"
  shows "using_passes ps cmd (Authenticated u) x \<longleftrightarrow> cmd \<noteq> CmdInsert \<and> x = Some u"
  using assms
  by (cases cmd)
     (auto simp: using_passes_def documents_policies_def chat_sessions_policies_def admits_def
        sql_eq_def split: option.splits)

lemma with_check_passes_owner:
  assumes "ps = documents_policies \<or> ps = chat_sessions_policies"
  shows "with_check_passes ps cmd (Authenticated u) x \<longleftrightarrow>
         (cmd = CmdInsert \<or> cmd = CmdUpdate) \<and> x = Some u"
  using assms
  by (cases cmd)
     (auto simp: with_check_passes_def documents_policies_def chat_sessions_policies_def admits_def
        check_clause_def sql_eq_def split: option.splits)

lemma own_rows_only_documents: "own_rows_only documents_policies"
  by (simp add: own_rows_only_def using_passes_owner with_check_passes_owner)

lemma own_rows_only_chat_sessions: "own_rows_only chat_sessions_policies"
  by (simp add: own_rows_only_def using_passes_owner with_check_passes_owner)

text \<open>
  Under such policies a statement of user \<open>u\<close> returns rows of \<open>u\<close> only and leaves the
  rows of everybody else as they are, in their order.
\<close>

lemma update_row_foreign:
  assumes "own_rows_only (policies t)" "update_row t e (Authenticated u) w f old = Inr new"
  shows "(user_id t old \<noteq> Some u \<longrightarrow> new = old) \<and> (user_id t old = Some u \<longrightarrow> user_id t new = Some u)"
proof (cases "using_passes (policies t) CmdUpdate (Authenticated u) (user_id t old) \<and> w old")
  case False
  with assms(2) have "new = old" by (simp add: update_row_def)
  then show ?thesis by simp
next
  case True
  with assms(1) have old: "user_id t old = Some u" by (auto simp: own_rows_only_def)
  from True assms(2) have "with_check_passes (policies t) CmdUpdate (Authenticated u) (user_id t new)"
    by (auto simp: update_row_def split: option.splits if_splits)
  with assms(1) have "user_id t new = Some u" by (auto simp: own_rows_only_def)
  with old show ?thesis by simp
qed

lemma update_rows_foreign:
  assumes "own_rows_only (policies t)"
  shows "update_rows t e (Authenticated u) w f rows = Inr rows' \<Longrightarrow>
         filter (\<lambda>x. user_id t x \<noteq> Some u) rows' = filter (\<lambda>x. user_id t x \<noteq> Some u) rows"
proof (induction rows arbitrary: rows')
  case Nil
  then show ?case by simp
next
  case (Cons old rows)
  from Cons.prems obtain new news where
    new: "update_row t e (Authenticated u) w f old = Inr new" and
    news: "update_rows t e (Authenticated u) w f rows = Inr news" and
    rows': "rows' = new # news"
    by (auto split: sum.splits)
  from Cons.IH[OF news] have IH: "filter (\<lambda>x. user_id t x \<noteq> Some u) news =
      filter (\<lambda>x. user_id t x \<noteq> Some u) rows" .
  from update_row_foreign[OF assms new] IH rows' show ?case
    by (cases "user_id t old = Some u") simp_all
qed

lemma exec_own_rows:
  assumes own: "own_rows_only (policies t)"
    and ex: "exec t e (Authenticated u) s rows = Inr (out, rows')"
  shows "(\<forall>x\<in>set out. user_id t x = Some u) \<and>
         filter (\<lambda>x. user_id t x \<noteq> Some u) rows' = filter (\<lambda>x. user_id t x \<noteq> Some u) rows"
proof (cases s)
  case (Select w)
  with ex own show ?thesis by (auto simp: own_rows_only_def)
next
  case (Insert v)
  with ex obtain new where new: "rows' = rows @ [new]" "out = []"
    "with_check_passes (policies t) CmdInsert (Authenticated u) (user_id t new)"
    by (auto split: option.splits if_splits)
  with own have "user_id t new = Some u" by (auto simp: own_rows_only_def)
  with new show ?thesis by simp
next
  case (Update w f)
  with ex have "update_rows t e (Authenticated u) w f rows = Inr rows'" "out = []"
    by (auto split: sum.splits if_splits)
  with update_rows_foreign[OF own] show ?thesis by simp
next
  case (Delete w)
  with ex have rows': "rows' = filter (\<lambda>x. \<not> (using_passes (policies t) CmdDelete (Authenticated u) (user_id t x) \<and> w x)) rows"
    and out: "out = []" by auto
  have "filter (\<lambda>x. user_id t x \<noteq> Some u) rows' = filter (\<lambda>x. user_id t x \<noteq> Some u) rows"
    unfolding rows' filter_filter
    using own by (intro filter_cong) (auto simp: own_rows_only_def)
  with out show ?thesis by simp
qed

lemma filter_other_user:
  assumes "u \<noteq> v" "filter (\<lambda>x. g x \<noteq> Some u) rows' = filter (\<lambda>x. g x \<noteq> Some u) rows"
  shows "filter (\<lambda>x. g x = Some v) rows' = filter (\<lambda>x. g x = Some (v::uuid)) rows"
proof -
  have "filter (\<lambda>x. g x = Some v) ys = filter (\<lambda>x. g x = Some v) (filter (\<lambda>x. g x \<noteq> Some u) ys)" for ys
    using assms(1) by (auto simp: filter_filter intro: filter_cong)
  with assms(2) show ?thesis by metis
qed

text \<open>
  C8: for distinct signed-in users \<open>u\<close> and \<open>v\<close>, a \<^verbatim>\<open>SELECT\<close>, \<^verbatim>\<open>INSERT\<close>, \<^verbatim>\<open>UPDATE\<close> or
  \<^verbatim>\<open>DELETE\<close> that \<open>u\<close> runs on \<^verbatim>\<open>documents\<close> or on \<^verbatim>\<open>chat_sessions\<close> returns no row whose
  \<^verbatim>\<open>user_id\<close> is \<open>v\<close>, and the rows of \<open>v\<close> in the table are the same before and after it.
\<close>

theorem row_level_security_isolates_users:
  assumes "u \<noteq> v"
  shows "(exec documents e (Authenticated u) s docs = Inr (out, docs') \<longrightarrow>
            (\<forall>d \<in> set out. doc_user_id d \<noteq> Some v) \<and>
            filter (\<lambda>d. doc_user_id d = Some v) docs' = filter (\<lambda>d. doc_user_id d = Some v) docs) \<and>
         (exec chat_sessions e' (Authenticated u) s' chats = Inr (out', chats') \<longrightarrow>
            (\<forall>c \<in> set out'. chat_user_id c \<noteq> Some v) \<and>
            filter (\<lambda>c. chat_user_id c = Some v) chats' = filter (\<lambda>c. chat_user_id c = Some v) chats)"
proof (intro conjI impI)
  assume ex: "exec documents e (Authenticated u) s docs = Inr (out, docs')"
  have own: "own_rows_only (policies documents)"
    by (simp add: documents_def own_rows_only_documents)
  from exec_own_rows[OF own ex] have
    a: "\<forall>d\<in>set out. doc_user_id d = Some u" and
    b: "filter (\<lambda>d. doc_user_id d \<noteq> Some u) docs' = filter (\<lambda>d. doc_user_id d \<noteq> Some u) docs"
    by (simp_all add: documents_def)
  from a assms show "\<forall>d \<in> set out. doc_user_id d \<noteq> Some v" by auto
  from filter_other_user[OF assms b]
  show "filter (\<lambda>d. doc_user_id d = Some v) docs' = filter (\<lambda>d. doc_user_id d = Some v) docs" .
next
  assume ex: "exec chat_sessions e' (Authenticated u) s' chats = Inr (out', chats')"
  have own: "own_rows_only (policies chat_sessions)"
    by (simp add: chat_sessions_def own_rows_only_chat_sessions)
  from exec_own_rows[OF own ex] have
    a: "\<forall>c\<in>set out'. chat_user_id c = Some u" and
    b: "filter (\<lambda>c. chat_user_id c \<noteq> Some u) chats' = filter (\<lambda>c. chat_user_id c \<noteq> Some u) chats"
    by (simp_all add: chat_sessions_def)
  from a assms show "\<forall>c \<in> set out'. chat_user_id c \<noteq> Some v" by auto
  from filter_other_user[OF assms b]
  show "filter (\<lambda>c. chat_user_id c = Some v) chats' = filter (\<lambda>c. chat_user_id c = Some v) chats" .
qed

text \<open>
  Instances on tables with one row of user 1 and one of user 2: user 1 selects and
  deletes everything the policies let through, and tries to hand a document to user 2.
\<close>

lemma exec_example_select:
  "exec documents example_env (Authenticated 1) (Select (\<lambda>d. True))
     [example_document 10 1, example_document 20 2] =
   Inr ([example_document 10 1], [example_document 10 1, example_document 20 2])"
  by (simp add: documents_def using_passes_owner example_document_def)

lemma exec_example_delete:
  "exec chat_sessions example_env (Authenticated 1) (Delete (\<lambda>c. True))
     [example_chat_session 10 1, example_chat_session 20 2] =
   Inr ([], [example_chat_session 20 2])"
  by (simp add: chat_sessions_def using_passes_owner example_chat_session_def)

lemma exec_example_update_rejected:
  "exec documents example_env (Authenticated 1) (Update (\<lambda>d. True) (\<lambda>d. d\<lparr>doc_user_id := Some 2\<rparr>))
     [example_document 10 1, example_document 20 2] = Inl InsufficientPrivilege"
  by (simp add: documents_def using_passes_owner with_check_passes_owner example_document_def
      update_row_def update_updated_at_column_documents_def documents_column_types_def
      varchar_def integer32_def)

theorem row_level_security_isolates_users_witness:
  "(1::uuid) \<noteq> 2 \<and>
   exec documents example_env (Authenticated 1) (Select (\<lambda>d. True))
     [example_document 10 1, example_document 20 2] =
     Inr ([example_document 10 1], [example_document 10 1, example_document 20 2]) \<and>
   doc_user_id (example_document 10 1) \<noteq> Some 2 \<and>
   exec chat_sessions example_env (Authenticated 1) (Delete (\<lambda>c. True))
     [example_chat_session 10 1, example_chat_session 20 2] = Inr ([], [example_chat_session 20 2]) \<and>
   filter (\<lambda>c. chat_user_id c = Some 2) [example_chat_session 20 2] =
     filter (\<lambda>c. chat_user_id c = Some 2) [example_chat_session 10 1, example_chat_session 20 2]"
  using row_level_security_isolates_users[of 1 2 example_env "Select (\<lambda>d. True)"
      "[example_document 10 1, example_document 20 2]" "[example_document 10 1]"
      "[example_document 10 1, example_document 20 2]"
      example_env "Delete (\<lambda>c. True)" "[example_chat_session 10 1, example_chat_session 20 2]"
      "[]" "[example_chat_session 20 2]"]
  unfolding exec_example_select exec_example_delete
  by (simp add: example_document_def example_chat_session_def)

section \<open>The upload page takes any dropped file\<close>

text \<open>
  C5 says that the upload interface accepts a file only if it is a PDF or PowerPoint
  file. \<^verbatim>\<open>handleDrop\<close> of the upload page puts every dropped file into \<^verbatim>\<open>files\<close>, and
  \<^verbatim>\<open>handleUpload\<close> posts it: here a text file.
\<close>

theorem handleDrop_takes_text_file:
  "\<not> pdf_or_powerpoint \<lparr>file_name = ''notes.txt'', file_type = ''text/plain'', file_size = 12\<rparr> \<and>
   files (handleDrop (Some [\<lparr>file_name = ''notes.txt'', file_type = ''text/plain'', file_size = 12\<rparr>])
            \<lparr>files = []\<rparr>) =
     [\<lparr>file_name = ''notes.txt'', file_type = ''text/plain'', file_size = 12\<rparr>] \<and>
   handleUpload True True (\<lambda>f. True)
     (handleDrop (Some [\<lparr>file_name = ''notes.txt'', file_type = ''text/plain'', file_size = 12\<rparr>])
        \<lparr>files = []\<rparr>) =
     [\<lparr>file_name = ''notes.txt'', file_type = ''text/plain'', file_size = 12\<rparr>]"
  by (simp add: pdf_or_powerpoint_def accept_def handleDrop_def handleUpload_def)

text \<open>A PDF with its MIME type is a PDF or PowerPoint file in that sense.\<close>

lemma pdf_or_powerpoint_pdf:
  "pdf_or_powerpoint \<lparr>file_name = ''brand.pdf'', file_type = ''application/pdf'', file_size = 2048\<rparr>"
  by (simp add: pdf_or_powerpoint_def accept_def ends_with_def)

section \<open>Chunks of the specified \<^verbatim>\<open>TextChunker\<close>\<close>

declare chunk_tokens.simps [simp del]

text \<open>
  A non-empty text has a first chunk, its first \<open>chunk_size\<close> tokens; no chunk is empty or
  longer than \<open>chunk_size\<close>; and the window that follows a full one starts \<open>overlap\<close>
  tokens before its end.
\<close>

lemma chunk_tokens_first:
  assumes "tokens \<noteq> []" "overlap < chunk_size"
  shows "\<exists>rest. chunk_tokens chunk_size overlap tokens = take chunk_size tokens # rest"
  using assms by (simp add: chunk_tokens.simps[of chunk_size overlap tokens])

lemma chunk_tokens_bounded:
  "c \<in> set (chunk_tokens chunk_size overlap tokens) \<Longrightarrow> c \<noteq> [] \<and> length c \<le> chunk_size"
proof (induction chunk_size overlap tokens rule: chunk_tokens.induct)
  case (1 chunk_size overlap tokens)
  show ?case
  proof (cases "tokens = [] \<or> chunk_size \<le> overlap")
    case True
    with "1.prems" show ?thesis
      by (simp add: chunk_tokens.simps[of chunk_size overlap tokens])
  next
    case False
    show ?thesis
    proof (cases "length tokens \<le> chunk_size")
      case True
      with False "1.prems" show ?thesis
        by (simp add: chunk_tokens.simps[of chunk_size overlap tokens])
    next
      case long: False
      with False "1.prems" consider "c = take chunk_size tokens"
        | "c \<in> set (chunk_tokens chunk_size overlap (drop (chunk_size - overlap) tokens))"
        by (auto simp: chunk_tokens.simps[of chunk_size overlap tokens])
      then show ?thesis
      proof cases
        case 1
        with False show ?thesis by auto
      next
        case 2
        with "1.IH" False long show ?thesis by simp
      qed
    qed
  qed
qed

lemma chunk_tokens_overlap:
  "overlap < chunk_size \<Longrightarrow> consecutive_overlap overlap (chunk_tokens chunk_size overlap tokens)"
proof (induction chunk_size overlap tokens rule: chunk_tokens.induct)
  case (1 chunk_size overlap tokens)
  show ?case
  proof (cases "tokens = [] \<or> length tokens \<le> chunk_size")
    case True
    then show ?thesis
      by (auto simp: chunk_tokens.simps[of chunk_size overlap tokens])
  next
    case False
    let ?step = "chunk_size - overlap"
    let ?tail = "drop ?step tokens"
    from False "1.prems" have ne: "tokens \<noteq> []" "\<not> chunk_size \<le> overlap" "\<not> length tokens \<le> chunk_size"
      by simp_all
    have eq: "chunk_tokens chunk_size overlap tokens =
        take chunk_size tokens # chunk_tokens chunk_size overlap ?tail"
      using ne by (simp add: chunk_tokens.simps[of chunk_size overlap tokens])
    from "1.IH"[OF _ ne(3)] ne "1.prems"
    have IH: "consecutive_overlap overlap (chunk_tokens chunk_size overlap ?tail)" by simp
    have tail: "?tail \<noteq> []" "overlap < length ?tail"
      using ne "1.prems" by auto
    from chunk_tokens_first[OF tail(1) "1.prems"] obtain rest where
      rest: "chunk_tokens chunk_size overlap ?tail = take chunk_size ?tail # rest" by blast
    have "overlap_by overlap (take chunk_size tokens) (take chunk_size ?tail)"
    proof -
      have l1: "length (take chunk_size tokens) = chunk_size" using ne by simp
      have "drop ?step (take chunk_size tokens) = take overlap ?tail"
        using "1.prems" by (simp add: drop_take)
      moreover have "take overlap (take chunk_size ?tail) = take overlap ?tail"
        using "1.prems" by (simp add: min_def)
      moreover have "overlap \<le> length (take chunk_size ?tail)"
        using tail(2) "1.prems" by simp
      ultimately show ?thesis
        using "1.prems" by (simp add: overlap_by_def l1 del: length_take)
    qed
    with IH rest eq show ?thesis by simp
  qed
qed

text \<open>
  C2: for a non-empty text and a configuration with \<open>0 < overlap < chunk_size\<close>, the
  chunker produces at least one segment, every segment is non-empty and has at most
  \<open>chunk_size\<close> tokens, and every two consecutive segments overlap: the last \<open>overlap\<close>
  tokens of one are the first \<open>overlap\<close> tokens of the next.
\<close>

theorem chunks_bounded_and_overlapping:
  assumes "tokens \<noteq> []" "0 < overlap" "overlap < chunk_size"
  shows "chunk_tokens chunk_size overlap tokens \<noteq> [] \<and>
         (\<forall>c \<in> set (chunk_tokens chunk_size overlap tokens). c \<noteq> [] \<and> length c \<le> chunk_size) \<and>
         consecutive_overlap overlap (chunk_tokens chunk_size overlap tokens)"
proof -
  from chunk_tokens_first[OF assms(1,3)] have "chunk_tokens chunk_size overlap tokens \<noteq> []"
    by auto
  moreover have "\<forall>c \<in> set (chunk_tokens chunk_size overlap tokens). c \<noteq> [] \<and> length c \<le> chunk_size"
    using chunk_tokens_bounded by blast
  moreover have "consecutive_overlap overlap (chunk_tokens chunk_size overlap tokens)"
    using assms(3) by (rule chunk_tokens_overlap)
  ultimately show ?thesis by simp
qed

text \<open>An instance with characters as tokens, windows of four and an overlap of two.\<close>

lemma chunk_tokens_example:
  "chunk_tokens 4 2 ''abcdefgh'' = [''abcd'', ''cdef'', ''efgh'']"
  by (simp add: chunk_tokens.simps[of 4 2 "''abcdefgh''"] chunk_tokens.simps[of 4 2 "''cdefgh''"]
      chunk_tokens.simps[of 4 2 "''efgh''"])

theorem chunks_bounded_and_overlapping_witness:
  "''abcdefgh'' \<noteq> [] \<and> (0::nat) < 2 \<and> (2::nat) < 4 \<and>
   chunk_tokens 4 2 ''abcdefgh'' = [''abcd'', ''cdef'', ''efgh''] \<and>
   consecutive_overlap 2 [''abcd'', ''cdef'', ''efgh'']"
  using chunks_bounded_and_overlapping[of "''abcdefgh''" 2 4]
  unfolding chunk_tokens_example by simp

text \<open>The documented configuration, 500 tokens with an overlap of 50, is of that kind.\<close>

lemma default_configuration: "0 < default_overlap \<and> default_overlap < default_chunk_size"
  by (simp add: default_overlap_def default_chunk_size_def)

section \<open>Retrieval of the specified \<^verbatim>\<open>VectorDatabase\<close>\<close>

text \<open>
  The ranking is in descending order of similarity, so each of its first \<open>k\<close> entries is
  at least as similar to the query as each of the others.
\<close>

lemma ranked_descending:
  "sorted_wrt (\<lambda>a b. f b \<le> f a) (rev (sort_key f xs))"
proof -
  have "sorted (map f (sort_key f xs))" by (rule sorted_sort_key)
  then have "sorted_wrt (\<lambda>a b. f a \<le> f b) (sort_key f xs)"
    by (simp add: sorted_map)
  then show ?thesis by (simp add: sorted_wrt_rev)
qed

lemma take_before_drop:
  assumes "sorted_wrt R xs" "a \<in> set (take k xs)" "b \<in> set (drop k xs)"
  shows "R a b"
proof -
  have "sorted_wrt R (take k xs @ drop k xs)" using assms(1) by simp
  with assms(2,3) show ?thesis unfolding sorted_wrt_append by blast
qed

lemma mset_minus_take: "mset xs - mset (take k xs) = mset (drop k xs)"
proof -
  have "mset xs = mset (take k xs) + mset (drop k xs)"
    by (metis append_take_drop_id mset_append)
  then show ?thesis by simp
qed

text \<open>
  C3: for every store, query embedding and \<open>k\<close>, the search returns stored entries (each
  at most as often as it is stored), \<open>k\<close> of them or all if there are fewer, and every
  returned entry is at least as similar to the query as every stored entry that is not
  returned: the result is the \<open>k\<close> nearest neighbours of the query.
\<close>

theorem similarity_search_nearest:
  "mset (similarity_search similarity store query k) \<subseteq># mset store \<and>
   length (similarity_search similarity store query k) = min k (length store) \<and>
   (\<forall>r \<in> set (similarity_search similarity store query k).
      \<forall>x \<in># mset store - mset (similarity_search similarity store query k).
        similarity query (snd x) \<le> similarity query (snd r))"
proof -
  let ?f = "\<lambda>entry. similarity query (snd entry)"
  let ?ranked = "rev (sort_key ?f store)"
  have res: "similarity_search similarity store query k = take k ?ranked"
    by (simp add: similarity_search_def)
  have ms: "mset ?ranked = mset store" by simp
  have sub: "mset (take k ?ranked) \<subseteq># mset store"
    by (metis ms append_take_drop_id mset_append mset_subset_eq_add_left)
  have len: "length (take k ?ranked) = min k (length store)"
    by (simp add: min.commute)
  have rest: "mset store - mset (take k ?ranked) = mset (drop k ?ranked)"
    using mset_minus_take[of ?ranked k] by (simp only: ms)
  have near: "?f x \<le> ?f r" if "r \<in> set (take k ?ranked)" "x \<in># mset (drop k ?ranked)" for r x
    using take_before_drop[OF ranked_descending, of r k ?f store x] that by simp
  from sub len rest near show ?thesis
    unfolding res by (simp only: ) blast
qed

text \<open>An instance: the two entries nearest to 6 among 1, 8, 5 and 20.\<close>

lemma similarity_search_example:
  "similarity_search nearness [(''a'', 1), (''b'', 8), (''c'', 5), (''d'', 20)] 6 2 =
     [(''c'', 5), (''b'', 8)]"
  by (simp add: similarity_search_def nearness_def)

theorem similarity_search_nearest_witness:
  "similarity_search nearness [(''a'', 1), (''b'', 8), (''c'', 5), (''d'', 20)] 6 2 =
     [(''c'', 5), (''b'', 8)] \<and>
   length [(''c'', 5::int), (''b'', 8)] = min 2 (length [(''a'', 1::int), (''b'', 8), (''c'', 5), (''d'', 20)]) \<and>
   nearness 6 1 \<le> nearness 6 8 \<and> nearness 6 20 \<le> nearness 6 5"
  using similarity_search_nearest[of nearness "[(''a'', 1), (''b'', 8), (''c'', 5), (''d'', 20)]" 6 2]
  unfolding similarity_search_example by (simp add: nearness_def)

end
